theory Spec2Isabelle
  imports Complex_Main "HOL-Library.Sublist"
begin

section \<open>Values of the program\<close>

text \<open>
  The repository is one Go file, \<^verbatim>\<open>main.go\<close>; the transfer engine is the function
  \<^verbatim>\<open>downloadFile\<close> (lines 53 to 135) with its helper \<^verbatim>\<open>ask\<close> (lines 32 to 51).
  Everything \<^verbatim>\<open>downloadFile\<close> learns from outside (the parsed URL, the file system,
  the answer typed at the prompt, the HTTP response, every read, write and clock reading)
  is made an explicit input, the record \<open>world\<close> below; everything it does to the outside
  (calls to the operating system, to the network and to its three callbacks) is recorded in
  order in a trace of events.
\<close>

subsection \<open>Machine integers\<close>

text \<open>
  \<^verbatim>\<open>bytesTotal\<close> and \<^verbatim>\<open>bytesRead\<close> are \<^verbatim>\<open>int64\<close>. They are modelled as \<open>int\<close>, and
  every arithmetic result is wrapped to the two's complement range by \<open>int64\<close>, as Go's
  \<^verbatim>\<open>+=\<close> and \<^verbatim>\<open>-\<close> on \<^verbatim>\<open>int64\<close> do.
\<close>

definition int64 :: "int \<Rightarrow> int" where
  "int64 x = (x + 2 ^ 63) mod 2 ^ 64 - 2 ^ 63"

subsection \<open>Floating point\<close>

text \<open>
  \<^verbatim>\<open>progress\<close>, \<^verbatim>\<open>speed\<close> and \<^verbatim>\<open>secondsRemaining\<close> are \<^verbatim>\<open>float64\<close>. The model keeps
  the special values of IEEE 754 (the infinities and NaN, which a division by zero
  produces in Go without any panic) and takes every finite value as an exact real: the
  rounding to 53 bits of mantissa is left out. The conversions \<^verbatim>\<open>float64(x)\<close> of the code
  apply to integers and never give a negative zero, and no divisor of the code can be a
  negative zero, so zero needs no sign here.
\<close>

datatype float64 = Fin real | PosInf | NegInf | NaN

fun f64_div :: "float64 \<Rightarrow> float64 \<Rightarrow> float64" where
  "f64_div (Fin a) (Fin b) =
     (if b \<noteq> 0 then Fin (a / b)
      else if 0 < a then PosInf
      else if a < 0 then NegInf
      else NaN)"
| "f64_div (Fin a) PosInf = Fin 0"
| "f64_div (Fin a) NegInf = Fin 0"
| "f64_div PosInf (Fin b) = (if 0 \<le> b then PosInf else NegInf)"
| "f64_div NegInf (Fin b) = (if 0 \<le> b then NegInf else PosInf)"
| "f64_div PosInf PosInf = NaN"
| "f64_div PosInf NegInf = NaN"
| "f64_div NegInf PosInf = NaN"
| "f64_div NegInf NegInf = NaN"
| "f64_div NaN y = NaN"
| "f64_div (Fin a) NaN = NaN"
| "f64_div PosInf NaN = NaN"
| "f64_div NegInf NaN = NaN"

definition f64_of_int64 :: "int \<Rightarrow> float64" where
  "f64_of_int64 x = Fin (of_int x)"


subsection \<open>Errors\<close>

text \<open>
  Go's \<^verbatim>\<open>error\<close> values. \<open>EOF\<close> is \<^verbatim>\<open>io.EOF\<close>; \<open>Errorf m\<close> is
  \<^verbatim>\<open>fmt.Errorf(m)\<close> with a constant message; \<open>StatusErrorf c\<close> is
  \<^verbatim>\<open>fmt.Errorf("Download failed, received status code %s", glog.Int(c))\<close>, the error
  that carries the status code; \<open>External m\<close> is an error value handed over by the
  standard library (\<^verbatim>\<open>url.Parse\<close>, \<^verbatim>\<open>os.RemoveAll\<close>, \<^verbatim>\<open>http.Get\<close>,
  \<^verbatim>\<open>os.Create\<close>, \<^verbatim>\<open>Read\<close>, \<^verbatim>\<open>Write\<close>, \<^verbatim>\<open>fmt.Scanln\<close>).
\<close>

datatype error = EOF | Errorf string | StatusErrorf int | External string

subsection \<open>Paths: \<^verbatim>\<open>filepath.Base\<close> and \<^verbatim>\<open>filepath.Join\<close>\<close>

text \<open>
  Both are functions of Go's standard library, modelled here for a Unix system (separator
  \<^verbatim>\<open>/\<close>, no volume names) from their documentation. \<^verbatim>\<open>Base\<close> returns the last
  element of the path after removing trailing slashes, \<^verbatim>\<open>.\<close> for the empty path and
  \<^verbatim>\<open>/\<close> for a path of slashes only.
\<close>

definition strip_trailing_slashes :: "string \<Rightarrow> string" where
  "strip_trailing_slashes p = rev (dropWhile (\<lambda>c. c = CHR ''/'') (rev p))"

definition filepath_Base :: "string \<Rightarrow> string" where
  "filepath_Base path =
     (if path = [] then ''.''
      else
        let p = strip_trailing_slashes path;
            e = rev (takeWhile (\<lambda>c. c \<noteq> CHR ''/'') (rev p))
        in if e = [] then ''/'' else e)"

text \<open>
  \<^verbatim>\<open>Clean\<close> works on the elements between slashes: empty elements and \<^verbatim>\<open>.\<close> are
  dropped, an inner \<^verbatim>\<open>..\<close> removes the element before it, a \<^verbatim>\<open>..\<close> at the start of
  a rooted path is dropped and one at the start of a relative path is kept; the empty
  result is \<^verbatim>\<open>.\<close>. The elements are kept on a stack, last element first.
\<close>

fun split_slash :: "string \<Rightarrow> string list" where
  "split_slash [] = [[]]"
| "split_slash (c # cs) =
     (if c = CHR ''/'' then [] # split_slash cs
      else (case split_slash cs of
              [] \<Rightarrow> [[c]]
            | e # es \<Rightarrow> (c # e) # es))"

fun clean_elems :: "bool \<Rightarrow> string list \<Rightarrow> string list \<Rightarrow> string list" where
  "clean_elems rooted stack [] = stack"
| "clean_elems rooted stack (e # es) =
     (if e = [] \<or> e = ''.'' then clean_elems rooted stack es
      else if e = ''..'' then
        (case stack of
           [] \<Rightarrow> clean_elems rooted (if rooted then [] else [''..'']) es
         | t # ts \<Rightarrow>
             if t = ''..'' then clean_elems rooted (''..'' # stack) es
             else clean_elems rooted ts es)
      else clean_elems rooted (e # stack) es)"

fun join_slash :: "string list \<Rightarrow> string" where
  "join_slash [] = []"
| "join_slash [e] = e"
| "join_slash (e # es) = e @ ''/'' @ join_slash es"

definition filepath_Clean :: "string \<Rightarrow> string" where
  "filepath_Clean path =
     (if path = [] then ''.''
      else
        let rooted = (hd path = CHR ''/'');
            out = (if rooted then ''/'' else []) @
                  join_slash (rev (clean_elems rooted [] (split_slash path)))
        in if out = [] then ''.'' else out)"

text \<open>
  \<^verbatim>\<open>Join\<close> of two elements: empty elements are ignored, the rest is joined with a slash
  and cleaned; if both are empty the result is the empty string.
\<close>

definition filepath_Join :: "string \<Rightarrow> string \<Rightarrow> string" where
  "filepath_Join a b =
     (if a \<noteq> [] then filepath_Clean (a @ ''/'' @ b)
      else if b \<noteq> [] then filepath_Clean b
      else [])"

subsection \<open>The file system\<close>

text \<open>
  A file system maps a path to what is there: a directory or a regular file with its
  bytes (a byte is a \<open>char\<close>). \<^verbatim>\<open>os.Stat\<close> succeeds on exactly the paths that are
  mapped. \<^verbatim>\<open>os.RemoveAll\<close>, when it succeeds, removes the path and everything below
  it; when it fails, the file system is taken to be as before. \<^verbatim>\<open>os.Create\<close>, when
  it succeeds, leaves an empty regular file at the path. Whether the two succeed is for
  the environment to say (fields \<open>removeAll_err\<close> and \<open>create_err\<close> of the record
  \<open>world\<close>).
\<close>

datatype node = Dir | File string

type_synonym fs = "string \<Rightarrow> node option"

definition below :: "string \<Rightarrow> string \<Rightarrow> bool" where
  "below p q \<longleftrightarrow> prefix (if p = ''/'' then p else p @ ''/'') q"

definition os_RemoveAll :: "fs \<Rightarrow> string \<Rightarrow> fs" where
  "os_RemoveAll f p = (\<lambda>q. if q = p \<or> below p q then None else f q)"

definition os_Create :: "fs \<Rightarrow> string \<Rightarrow> fs" where
  "os_Create f p = f(p \<mapsto> File [])"

text \<open>Writing to the file at a path appends the bytes to it.\<close>

definition file_Write :: "fs \<Rightarrow> string \<Rightarrow> string \<Rightarrow> fs" where
  "file_Write f p bs =
     (case f p of
        Some (File c) \<Rightarrow> f(p \<mapsto> File (c @ bs))
      | Some Dir \<Rightarrow> f
      | None \<Rightarrow> f)"

subsection \<open>The prompt: \<^verbatim>\<open>ask\<close> (lines 32 to 51)\<close>

text \<open>
  \<^verbatim>\<open>strings.ToLower\<close> on the ASCII letters; other bytes are left as they are. (Go also
  maps upper-case letters outside ASCII, none of them to \<^verbatim>\<open>y\<close>, \<^verbatim>\<open>e\<close>, \<^verbatim>\<open>s\<close>,
  \<^verbatim>\<open>n\<close> or \<^verbatim>\<open>o\<close>, so the comparisons of \<^verbatim>\<open>ask\<close> are not affected.)
\<close>

definition to_lower_ascii :: "char \<Rightarrow> char" where
  "to_lower_ascii c =
     (case map_of (zip ''ABCDEFGHIJKLMNOPQRSTUVWXYZ'' ''abcdefghijklmnopqrstuvwxyz'') c of
        Some l \<Rightarrow> l
      | None \<Rightarrow> c)"

definition strings_ToLower :: "string \<Rightarrow> string" where
  "strings_ToLower s = map to_lower_ascii s"

text \<open>
  \<^verbatim>\<open>ask\<close> prints the question and reads one token with \<^verbatim>\<open>fmt.Scanln\<close>. Its
  argument here is what \<^verbatim>\<open>Scanln\<close> gave: the token and the error, if any.
\<close>

definition ask :: "string \<times> error option \<Rightarrow> bool" where
  "ask scan =
     (case snd scan of
        Some err \<Rightarrow> False
      | None \<Rightarrow>
          let response = strings_ToLower (fst scan) in
          if response = ''y'' \<or> response = ''yes'' then True
          else if response = ''n'' \<or> response = ''no'' then False
          else False)"

section \<open>The environment and the trace\<close>

record URL =
  Scheme :: string
  Path :: string

text \<open>
  One pass through the copy loop observes: what \<^verbatim>\<open>resp.Body.Read\<close> returned (the
  bytes put into the buffer of 1 MiB, whose number is \<^verbatim>\<open>n\<close>, and the error), what
  \<^verbatim>\<open>destFile.Write\<close> does if it is called (\<open>None\<close>: all bytes written; \<open>Some (k, e)\<close>:
  error \<open>e\<close> after \<open>k\<close> bytes reached the file), and the value of
  \<^verbatim>\<open>int64(time.Since(timeStart).Seconds())\<close> if it is computed.
\<close>

record iteration =
  read_data :: string
  read_err :: "error option"
  write_fail :: "(nat \<times> error) option"
  since_seconds :: int

text \<open>
  The response of \<^verbatim>\<open>http.Get\<close>. \<open>Body\<close> lists the passes through the loop that the
  environment has answered so far; a body that never ends is a family of ever longer
  lists, and a run that uses up its list has not returned.
\<close>

record response =
  StatusCode :: int
  ContentLength :: int
  Body :: "iteration list"

record world =
  url_Parse :: "string \<Rightarrow> error + URL"
  fs0 :: fs
  scanln :: "string \<times> error option"
  removeAll_err :: "error option"
  http_Get :: "string \<Rightarrow> error + response"
  create_err :: "error option"

text \<open>The local variables of the transfer (lines 100 to 106).\<close>

record transfer =
  bytesTotal :: int
  bytesRead :: int
  progress :: float64
  speed :: float64
  secondsRemaining :: float64

text \<open>
  What the program does to the outside, in order. The three callbacks carry the file name
  they were given and the transfer variables. The deferred calls of \<^verbatim>\<open>Close\<close> are not
  recorded.
\<close>

datatype event =
    Stat string
  | Prompt string
  | RemoveAll string
  | HttpGet string
  | Create string
  | BodyRead
  | FileWrite string
  | OnProgress string transfer
  | OnProgressSuccess string transfer
  | OnProgressError string transfer error

text \<open>
  The result of a run: what \<^verbatim>\<open>downloadFile\<close> returned (\<open>None\<close> while it has not
  returned), the trace, and the file system it leaves.
\<close>

record run =
  returned :: "(string \<times> error option) option"
  trace :: "event list"
  files :: fs

section \<open>The transfer engine: \<^verbatim>\<open>downloadFile\<close>\<close>

subsection \<open>The copy loop (lines 108 to 132)\<close>

text \<open>
  Modelled from the spec: \<^verbatim>\<open>glog.Max\<close> belongs to the library
  \<^verbatim>\<open>github.com/toxyl/glog\<close>, whose sources are not part of the repository. The spec says
  that the elapsed seconds are floored to a minimum of 1 second to avoid a division by
  zero: \<^verbatim>\<open>glog.Max(1, x)\<close> is the larger of its arguments.
\<close>

definition glog_Max :: "int \<Rightarrow> int \<Rightarrow> int" where
  "glog_Max a b = (if a < b then b else a)"

text \<open>Lines 121 to 124: the variables after a chunk of \<open>n\<close> bytes has been written.\<close>

definition advance :: "transfer \<Rightarrow> nat \<Rightarrow> int \<Rightarrow> transfer" where
  "advance st n secs =
     (let br = int64 (bytesRead st + int n);
          pr = f64_div (f64_of_int64 br) (f64_of_int64 (bytesTotal st));
          sp = f64_div (f64_of_int64 br) (f64_of_int64 (glog_Max 1 secs));
          sr = f64_div (f64_of_int64 (int64 (bytesTotal st - br))) sp
      in st\<lparr>bytesRead := br, progress := pr, speed := sp, secondsRemaining := sr\<rparr>)"

datatype control = Continue | Break | Return error

record pass =
  ctl :: control
  vars :: transfer
  evs :: "event list"
  wrote :: string

text \<open>One pass through the body of the loop (lines 109 to 131).\<close>

definition loop_body :: "string \<Rightarrow> iteration \<Rightarrow> transfer \<Rightarrow> pass" where
  "loop_body dstName it st =
     (case (if read_err it = Some EOF then None else read_err it) of
        Some err \<Rightarrow>
          \<lparr>ctl = Return err, vars = st,
           evs = [BodyRead, OnProgressError dstName st err], wrote = []\<rparr>
      | None \<Rightarrow>
          if 0 < length (read_data it) then
            (case write_fail it of
               Some (k, err) \<Rightarrow>
                 \<lparr>ctl = Return err, vars = st,
                  evs = [BodyRead, FileWrite (take k (read_data it)),
                         OnProgressError dstName st err],
                  wrote = take k (read_data it)\<rparr>
             | None \<Rightarrow>
                 let st' = advance st (length (read_data it)) (since_seconds it) in
                 \<lparr>ctl = (if read_err it = Some EOF then Break else Continue), vars = st',
                  evs = [BodyRead, FileWrite (read_data it), OnProgress dstName st'],
                  wrote = read_data it\<rparr>)
          else
            \<lparr>ctl = (if read_err it = Some EOF then Break else Continue), vars = st,
             evs = [BodyRead], wrote = []\<rparr>)"

text \<open>
  The loop. \<open>finished\<close> is \<open>None\<close> when the list of passes is used up before the loop has
  ended, \<open>Some None\<close> after \<^verbatim>\<open>break\<close> and \<open>Some (Some e)\<close> after a \<^verbatim>\<open>return\<close> with the
  error \<open>e\<close>.
\<close>

record loop_run =
  finished :: "error option option"
  final :: transfer
  events :: "event list"
  written :: string

fun copy_loop :: "string \<Rightarrow> iteration list \<Rightarrow> transfer \<Rightarrow> loop_run" where
  "copy_loop dstName [] st = \<lparr>finished = None, final = st, events = [], written = []\<rparr>"
| "copy_loop dstName (it # its) st =
     (let p = loop_body dstName it st in
      case ctl p of
        Return err \<Rightarrow>
          \<lparr>finished = Some (Some err), final = vars p, events = evs p, written = wrote p\<rparr>
      | Break \<Rightarrow>
          \<lparr>finished = Some None, final = vars p, events = evs p, written = wrote p\<rparr>
      | Continue \<Rightarrow>
          let r = copy_loop dstName its (vars p) in
          r\<lparr>events := evs p @ events r, written := wrote p @ written r\<rparr>)"

subsection \<open>Request, file creation and transfer (lines 84 to 134)\<close>

text \<open>Lines 100 to 106: the variables before the first pass.\<close>

definition init_transfer :: "int \<Rightarrow> transfer" where
  "init_transfer len =
     \<lparr>bytesTotal = len, bytesRead = 0, progress = Fin 0, speed = Fin 0,
      secondsRemaining = Fin 0\<rparr>"

text \<open>
  The rest of \<^verbatim>\<open>downloadFile\<close> from line 84 on. It is reached on two paths, with
  nothing at the destination or with the old entry removed; \<open>tr\<close> and \<open>f\<close> are the trace
  and the file system so far.
\<close>

definition request :: "world \<Rightarrow> string \<Rightarrow> string \<Rightarrow> string \<Rightarrow> event list \<Rightarrow> fs \<Rightarrow> run" where
  "request w srcURL dstName dstPath tr f =
     (case http_Get w srcURL of
        Inl err \<Rightarrow>
          \<lparr>returned = Some (dstPath, Some err), trace = tr @ [HttpGet srcURL], files = f\<rparr>
      | Inr resp \<Rightarrow>
          if StatusCode resp \<noteq> 200 then
            \<lparr>returned = Some (dstPath, Some (StatusErrorf (StatusCode resp))),
             trace = tr @ [HttpGet srcURL], files = f\<rparr>
          else
            (case create_err w of
               Some err \<Rightarrow>
                 \<lparr>returned = Some (dstPath, Some err),
                  trace = tr @ [HttpGet srcURL, Create dstPath], files = f\<rparr>
             | None \<Rightarrow>
                 let r = copy_loop dstName (Body resp) (init_transfer (ContentLength resp));
                     tr' = tr @ [HttpGet srcURL, Create dstPath] @ events r;
                     f' = file_Write (os_Create f dstPath) dstPath (written r)
                 in (case finished r of
                       None \<Rightarrow> \<lparr>returned = None, trace = tr', files = f'\<rparr>
                     | Some (Some err) \<Rightarrow>
                         \<lparr>returned = Some (dstPath, Some err), trace = tr', files = f'\<rparr>
                     | Some None \<Rightarrow>
                         \<lparr>returned = Some (dstPath, None),
                          trace = tr' @ [OnProgressSuccess dstPath (final r)],
                          files = f'\<rparr>)))"

subsection \<open>URL validation and destination (lines 60 to 82)\<close>

definition downloadFile :: "world \<Rightarrow> string \<Rightarrow> string \<Rightarrow> run" where
  "downloadFile w srcURL dstDir =
     (case url_Parse w srcURL of
        Inl err \<Rightarrow> \<lparr>returned = Some ([], Some err), trace = [], files = fs0 w\<rparr>
      | Inr u \<Rightarrow>
          if Scheme u = [] then
            \<lparr>returned = Some ([], Some (Errorf ''not a valid URL'')), trace = [],
             files = fs0 w\<rparr>
          else
            let dstName = filepath_Base (Path u);
                dstPath = filepath_Join dstDir dstName
            in
              if fs0 w dstPath \<noteq> None then
                if \<not> ask (scanln w) then
                  \<lparr>returned = Some (dstPath, Some (Errorf ''Download cancelled!'')),
                   trace = [Stat dstPath, Prompt dstPath], files = fs0 w\<rparr>
                else
                  (case removeAll_err w of
                     Some err \<Rightarrow>
                       \<lparr>returned = Some (dstPath, Some err),
                        trace = [Stat dstPath, Prompt dstPath, RemoveAll dstPath],
                        files = fs0 w\<rparr>
                   | None \<Rightarrow>
                       request w srcURL dstName dstPath
                         [Stat dstPath, Prompt dstPath, RemoveAll dstPath]
                         (os_RemoveAll (fs0 w) dstPath))
              else request w srcURL dstName dstPath [Stat dstPath] (fs0 w))"

section \<open>Reading a run\<close>

subsection \<open>Callbacks in a trace\<close>

fun is_success :: "event \<Rightarrow> bool" where
  "is_success (OnProgressSuccess n st) = True"
| "is_success e = False"

fun is_failure :: "event \<Rightarrow> bool" where
  "is_failure (OnProgressError n st err) = True"
| "is_failure e = False"

fun is_create :: "event \<Rightarrow> bool" where
  "is_create (Create p) = True"
| "is_create e = False"

definition success_calls :: "event list \<Rightarrow> nat" where
  "success_calls tr = length (filter is_success tr)"

definition failure_calls :: "event list \<Rightarrow> nat" where
  "failure_calls tr = length (filter is_failure tr)"

text \<open>The variables handed to \<^verbatim>\<open>onProgress\<close>, call after call.\<close>

fun progress_calls :: "event list \<Rightarrow> transfer list" where
  "progress_calls [] = []"
| "progress_calls (OnProgress n st # tr) = st # progress_calls tr"
| "progress_calls (e # tr) = progress_calls tr"

text \<open>The variables handed to the terminal callbacks.\<close>

fun terminal_reports :: "event list \<Rightarrow> transfer list" where
  "terminal_reports [] = []"
| "terminal_reports (OnProgressSuccess n st # tr) = st # terminal_reports tr"
| "terminal_reports (OnProgressError n st err # tr) = st # terminal_reports tr"
| "terminal_reports (e # tr) = terminal_reports tr"

text \<open>
  \<^verbatim>\<open>onProgress\<close> receives the cumulative \<^verbatim>\<open>bytesRead\<close>; the size of the chunk behind a
  call is the difference to the call before it.
\<close>

fun chunk_sizes :: "int \<Rightarrow> transfer list \<Rightarrow> int list" where
  "chunk_sizes prev [] = []"
| "chunk_sizes prev (t # ts) = (bytesRead t - prev) # chunk_sizes (bytesRead t) ts"

definition file_size :: "fs \<Rightarrow> string \<Rightarrow> int option" where
  "file_size f p =
     (case f p of
        Some (File c) \<Rightarrow> Some (int (length c))
      | Some Dir \<Rightarrow> None
      | None \<Rightarrow> None)"

subsection \<open>The steps of the spec\<close>

text \<open>
  The destination path of step 2, and the step at which a run in a given world leaves the
  straight line: URL validation (step 1), destination and prompt (step 2), the request
  (step 3), the creation of the file (step 4), or not before the copy loop (step 5).
\<close>

definition dst_path :: "world \<Rightarrow> string \<Rightarrow> string \<Rightarrow> string" where
  "dst_path w srcURL dstDir =
     (case url_Parse w srcURL of
        Inl err \<Rightarrow> []
      | Inr u \<Rightarrow> filepath_Join dstDir (filepath_Base (Path u)))"

datatype stage = AtValidation | AtDestination | AtRequest | AtCreation | InCopyLoop

definition stage_of :: "world \<Rightarrow> string \<Rightarrow> string \<Rightarrow> stage" where
  "stage_of w srcURL dstDir =
     (case url_Parse w srcURL of
        Inl err \<Rightarrow> AtValidation
      | Inr u \<Rightarrow>
          if Scheme u = [] then AtValidation
          else if fs0 w (dst_path w srcURL dstDir) \<noteq> None \<and>
                  (\<not> ask (scanln w) \<or> removeAll_err w \<noteq> None) then AtDestination
          else
            (case http_Get w srcURL of
               Inl err \<Rightarrow> AtRequest
             | Inr resp \<Rightarrow>
                 if StatusCode resp \<noteq> 200 then AtRequest
                 else if create_err w \<noteq> None then AtCreation
                 else InCopyLoop))"

text \<open>The copy loop of a run that reaches it.\<close>

definition the_loop :: "world \<Rightarrow> string \<Rightarrow> loop_run" where
  "the_loop w srcURL =
     (case url_Parse w srcURL of
        Inl err \<Rightarrow> copy_loop [] [] (init_transfer 0)
      | Inr u \<Rightarrow>
          (case http_Get w srcURL of
             Inl err \<Rightarrow> copy_loop [] [] (init_transfer 0)
           | Inr resp \<Rightarrow>
               copy_loop (filepath_Base (Path u)) (Body resp)
                 (init_transfer (ContentLength resp))))"

text \<open>The passes of the response's body (none if there is no response).\<close>

definition body_of :: "world \<Rightarrow> string \<Rightarrow> iteration list" where
  "body_of w srcURL =
     (case http_Get w srcURL of
        Inl err \<Rightarrow> []
      | Inr resp \<Rightarrow> Body resp)"

subsection \<open>What the HTTP client guarantees\<close>

text \<open>
  \<^verbatim>\<open>resp.ContentLength\<close> is an \<^verbatim>\<open>int64\<close>, \<open>-1\<close> when the length is unknown. Go's
  HTTP client never hands over more bytes than a known content length (it cuts the body
  there), so the body of a response with content length 0 is empty. The number of bytes
  of a body is taken to fit \<^verbatim>\<open>int64\<close>.
\<close>

definition body_bytes :: "iteration list \<Rightarrow> nat" where
  "body_bytes its = sum_list (map (\<lambda>it. length (read_data it)) its)"

definition fits_int64 :: "response \<Rightarrow> bool" where
  "fits_int64 resp \<longleftrightarrow>
     - 1 \<le> ContentLength resp \<and> ContentLength resp < 2 ^ 63 \<and>
     int (body_bytes (Body resp)) < 2 ^ 63"

definition within_length :: "response \<Rightarrow> bool" where
  "within_length resp \<longleftrightarrow>
     (0 \<le> ContentLength resp \<longrightarrow> int (body_bytes (Body resp)) \<le> ContentLength resp)"

definition http_contract :: "world \<Rightarrow> string \<Rightarrow> bool" where
  "http_contract w srcURL =
     (case http_Get w srcURL of
        Inl err \<Rightarrow> True
      | Inr resp \<Rightarrow> fits_int64 resp \<and> within_length resp)"

text \<open>A pass that ends the loop: a read with an error (end of stream or other), or a
  failed write.\<close>

definition ends_loop :: "iteration \<Rightarrow> bool" where
  "ends_loop it \<longleftrightarrow>
     read_err it \<noteq> None \<or> (read_data it \<noteq> [] \<and> write_fail it \<noteq> None)"

text \<open>No failed write has left a part of its chunk in the file.\<close>

definition whole_writes :: "iteration list \<Rightarrow> bool" where
  "whole_writes its =
     list_all (\<lambda>it. case write_fail it of None \<Rightarrow> True | Some (k, err) \<Rightarrow> k = 0) its"

text \<open>
  The bytes that the failed write which ended the loop, if any, has put into the file
  before its error: of a chunk of \<open>n\<close> bytes whose write fails after \<open>k\<close> bytes, the
  first \<open>k\<close> (at most \<open>n\<close>). They are in the file and in no count of the engine.
\<close>

fun partial_bytes :: "iteration list \<Rightarrow> nat" where
  "partial_bytes [] = 0"
| "partial_bytes (it # its) =
     (if read_err it \<noteq> None \<and> read_err it \<noteq> Some EOF then 0
      else if read_data it \<noteq> [] \<and> write_fail it \<noteq> None then
        (case write_fail it of
           None \<Rightarrow> 0
         | Some (k, err) \<Rightarrow> min k (length (read_data it)))
      else if read_err it = Some EOF then 0
      else partial_bytes its)"

subsection \<open>The progress protocol in the spec's words\<close>

text \<open>
  Step 5 of the spec: every read that yields \<open>n > 0\<close> bytes is written, and after the
  write the cumulative number of bytes, the progress, the elapsed seconds floored to a
  minimum of 1, the speed (bytes so far by floored seconds) and the seconds remaining
  (bytes left by speed) are recomputed and handed to \<^verbatim>\<open>onProgress\<close>, chunk after chunk.
  \<open>chunks_written\<close> lists the size and the clock reading of every chunk written in full
  until the loop ends; \<open>cumulative\<close> turns the sizes into running totals.
\<close>

fun chunks_written :: "iteration list \<Rightarrow> (nat \<times> int) list" where
  "chunks_written [] = []"
| "chunks_written (it # its) =
     (if read_err it \<noteq> None \<and> read_err it \<noteq> Some EOF then []
      else if read_data it \<noteq> [] \<and> write_fail it \<noteq> None then []
      else (if read_data it \<noteq> [] then [(length (read_data it), since_seconds it)] else []) @
           (if read_err it = Some EOF then [] else chunks_written its))"

fun cumulative :: "int \<Rightarrow> (nat \<times> int) list \<Rightarrow> (int \<times> int) list" where
  "cumulative acc [] = []"
| "cumulative acc ((n, t) # cs) = (acc + int n, t) # cumulative (acc + int n) cs"

definition spec_progress :: "int \<Rightarrow> int \<times> int \<Rightarrow> transfer" where
  "spec_progress len ct =
     \<lparr>bytesTotal = len,
      bytesRead = fst ct,
      progress = f64_div (Fin (of_int (fst ct))) (Fin (of_int len)),
      speed = f64_div (Fin (of_int (fst ct))) (Fin (of_int (max 1 (snd ct)))),
      secondsRemaining =
        f64_div (Fin (of_int (len - fst ct)))
          (f64_div (Fin (of_int (fst ct))) (Fin (of_int (max 1 (snd ct)))))\<rparr>"

definition spec_progress_calls :: "int \<Rightarrow> iteration list \<Rightarrow> transfer list" where
  "spec_progress_calls len its = map (spec_progress len) (cumulative 0 (chunks_written its))"

subsection \<open>Values fit for display\<close>




section \<open>Example worlds\<close>

text \<open>
  What \<^verbatim>\<open>url.Parse\<close> returns on the URLs of the examples: a URL with scheme and path, a
  URL whose path is a slash only, a string without scheme (it parses, with an empty
  scheme) and a string that does not parse.
\<close>

definition url_table :: "string \<Rightarrow> error + URL" where
  "url_table s =
     (if s = ''https://example.com/files/data.bin'' then
        Inr \<lparr>Scheme = ''https'', Path = ''/files/data.bin''\<rparr>
      else if s = ''https://example.com/'' then Inr \<lparr>Scheme = ''https'', Path = ''/''\<rparr>
      else if s = ''example.com/data.bin'' then
        Inr \<lparr>Scheme = [], Path = ''example.com/data.bin''\<rparr>
      else Inl (External ''missing protocol scheme''))"

text \<open>A response with status 200 and content length 10, delivered in two chunks of 5
  bytes, the second after 2 seconds, into an empty directory \<^verbatim>\<open>/tmp\<close>.\<close>

definition w_ok :: world where
  "w_ok =
     \<lparr>url_Parse = url_table,
      fs0 = [''/tmp'' \<mapsto> Dir],
      scanln = ([], Some (External ''unexpected newline'')),
      removeAll_err = None,
      http_Get = (\<lambda>s. Inr \<lparr>StatusCode = 200, ContentLength = 10,
        Body = [\<lparr>read_data = ''01234'', read_err = None, write_fail = None,
                  since_seconds = 0\<rparr>,
                \<lparr>read_data = ''56789'', read_err = None, write_fail = None,
                  since_seconds = 2\<rparr>,
                \<lparr>read_data = [], read_err = Some EOF, write_fail = None,
                  since_seconds = 2\<rparr>]\<rparr>),
      create_err = None\<rparr>"

text \<open>The same, with the answers 404 and 204 of the server.\<close>

definition w_404 :: world where
  "w_404 = w_ok\<lparr>http_Get := (\<lambda>s. Inr \<lparr>StatusCode = 404, ContentLength = 0, Body = []\<rparr>)\<rparr>"

definition w_204 :: world where
  "w_204 = w_ok\<lparr>http_Get := (\<lambda>s. Inr \<lparr>StatusCode = 204, ContentLength = 0, Body = []\<rparr>)\<rparr>"


text \<open>The disk is full after 3 bytes of the first chunk.\<close>

definition w_disk_full :: world where
  "w_disk_full =
     w_ok\<lparr>http_Get := (\<lambda>s. Inr \<lparr>StatusCode = 200, ContentLength = 10,
        Body = [\<lparr>read_data = ''0123456789'', read_err = None,
                  write_fail = Some (3, External ''no space left on device''),
                  since_seconds = 0\<rparr>]\<rparr>)\<rparr>"

text \<open>The destination file exists, and the user answers \<^verbatim>\<open>n\<close>.\<close>

definition w_declined :: world where
  "w_declined =
     w_ok\<lparr>fs0 := [''/tmp'' \<mapsto> Dir, ''/tmp/data.bin'' \<mapsto> File ''old''],
          scanln := (''n'', None)\<rparr>"

text \<open>
  The destination directory \<^verbatim>\<open>/tmp/dl\<close> exists and holds a file; the user answers
  \<^verbatim>\<open>y\<close> to the prompt; the server sends two bytes.
\<close>

definition w_dir :: world where
  "w_dir =
     \<lparr>url_Parse = url_table,
      fs0 = [''/tmp'' \<mapsto> Dir, ''/tmp/dl'' \<mapsto> Dir, ''/tmp/dl/keep.txt'' \<mapsto> File ''old''],
      scanln = (''y'', None),
      removeAll_err = None,
      http_Get = (\<lambda>s. Inr \<lparr>StatusCode = 200, ContentLength = 2,
        Body = [\<lparr>read_data = ''hi'', read_err = None, write_fail = None,
                  since_seconds = 0\<rparr>,
                \<lparr>read_data = [], read_err = Some EOF, write_fail = None,
                  since_seconds = 0\<rparr>]\<rparr>),
      create_err = None\<rparr>"

section \<open>Properties of the copy loop and of a run\<close>

lemma success_calls_simps [simp]:
  "success_calls [] = 0"
  "success_calls (e # tr) = (if is_success e then 1 else 0) + success_calls tr"
  "success_calls (tr @ tr') = success_calls tr + success_calls tr'"
  by (simp_all add: success_calls_def)

lemma failure_calls_simps [simp]:
  "failure_calls [] = 0"
  "failure_calls (e # tr) = (if is_failure e then 1 else 0) + failure_calls tr"
  "failure_calls (tr @ tr') = failure_calls tr + failure_calls tr'"
  by (simp_all add: failure_calls_def)

lemma progress_calls_append [simp]:
  "progress_calls (tr @ tr') = progress_calls tr @ progress_calls tr'"
  by (induction tr rule: progress_calls.induct) simp_all

lemma loop_body_calls:
  "success_calls (evs (loop_body n it st)) = 0"
  "failure_calls (evs (loop_body n it st)) = (case ctl (loop_body n it st) of Return e \<Rightarrow> 1 | _ \<Rightarrow> 0)"
  by (simp_all add: loop_body_def Let_def split: option.splits prod.splits)

lemma copy_loop_calls:
  "success_calls (events (copy_loop n its st)) = 0 \<and>
   failure_calls (events (copy_loop n its st)) =
     (case finished (copy_loop n its st) of Some (Some e) \<Rightarrow> 1 | _ \<Rightarrow> 0)"
proof (induction its arbitrary: st)
  case Nil
  show ?case by simp
next
  case (Cons it its)
  show ?case
    using Cons.IH [of "vars (loop_body n it st)"] loop_body_calls [of n it st]
    by (cases "ctl (loop_body n it st)") (simp_all add: Let_def)
qed

lemma request_in_loop:
  assumes "http_Get w s = Inr resp" "StatusCode resp = 200" "create_err w = None"
    and "r = copy_loop n (Body resp) (init_transfer (ContentLength resp))"
  shows "returned (request w s n p tr f) =
           (case finished r of None \<Rightarrow> None | Some e \<Rightarrow> Some (p, e))"
    and "trace (request w s n p tr f) =
           tr @ [HttpGet s, Create p] @ events r @
           (if finished r = Some None then [OnProgressSuccess p (final r)] else [])"
    and "files (request w s n p tr f) = f(p \<mapsto> File (written r))"
  using assms
  by (auto simp: request_def init_transfer_def Let_def os_Create_def file_Write_def
           split: option.splits)

lemma run_before_loop:
  assumes "stage_of w s d \<noteq> InCopyLoop"
  shows "returned (downloadFile w s d) \<noteq> None"
    and "success_calls (trace (downloadFile w s d)) = 0"
    and "failure_calls (trace (downloadFile w s d)) = 0"
    and "progress_calls (trace (downloadFile w s d)) = []"
  using assms
  by (auto simp: downloadFile_def stage_of_def dst_path_def Let_def request_def
           split: sum.splits option.splits if_splits)

lemma run_in_loop:
  assumes "stage_of w s d = InCopyLoop"
  shows "returned (downloadFile w s d) =
           (case finished (the_loop w s) of None \<Rightarrow> None
            | Some e \<Rightarrow> Some (dst_path w s d, e))"
    and "success_calls (trace (downloadFile w s d)) =
           (if finished (the_loop w s) = Some None then 1 else 0)"
    and "failure_calls (trace (downloadFile w s d)) =
           (case finished (the_loop w s) of Some (Some e) \<Rightarrow> 1 | _ \<Rightarrow> 0)"
    and "progress_calls (trace (downloadFile w s d)) = progress_calls (events (the_loop w s))"
    and "files (downloadFile w s d) (dst_path w s d) = Some (File (written (the_loop w s)))"
  using assms copy_loop_calls
  by (auto simp: downloadFile_def stage_of_def dst_path_def the_loop_def Let_def
                 request_in_loop [OF _ _ _ refl]
           split: sum.splits option.splits if_splits)

lemma int64_id: "- (2 ^ 63) \<le> x \<Longrightarrow> x < 2 ^ 63 \<Longrightarrow> int64 x = x"
  by (simp add: int64_def)

lemma body_bytes_simps [simp]:
  "body_bytes [] = 0"
  "body_bytes (it # its) = length (read_data it) + body_bytes its"
  by (simp_all add: body_bytes_def)

lemma advance_spec:
  assumes "0 \<le> bytesRead st" "bytesRead st + int n < 2 ^ 63"
    and "- 1 \<le> bytesTotal st" "bytesTotal st < 2 ^ 63"
  shows "advance st n secs = spec_progress (bytesTotal st) (bytesRead st + int n, secs)"
proof -
  have a: "int64 (bytesRead st + int n) = bytesRead st + int n"
    using assms by (intro int64_id) simp_all
  have b: "int64 (bytesTotal st - (bytesRead st + int n)) = bytesTotal st - (bytesRead st + int n)"
    using assms by (intro int64_id) simp_all
  show ?thesis
    by (simp add: advance_def Let_def a b spec_progress_def f64_of_int64_def glog_Max_def max_def)
qed

lemma spec_progress_sel [simp]:
  "bytesTotal (spec_progress len ct) = len"
  "bytesRead (spec_progress len ct) = fst ct"
  by (simp_all add: spec_progress_def)

lemma copy_loop_progress:
  assumes "0 \<le> bytesRead st" "bytesRead st + int (body_bytes its) < 2 ^ 63"
    and "- 1 \<le> bytesTotal st" "bytesTotal st < 2 ^ 63"
  shows "progress_calls (events (copy_loop n its st)) =
           map (spec_progress (bytesTotal st)) (cumulative (bytesRead st) (chunks_written its))"
  using assms
proof (induction its arbitrary: st)
  case Nil
  show ?case by simp
next
  case (Cons it its)
  let ?k = "length (read_data it)"
  have adv: "advance st ?k (since_seconds it) =
               spec_progress (bytesTotal st) (bytesRead st + int ?k, since_seconds it)"
    using Cons.prems by (intro advance_spec) simp_all
  have ih1: "progress_calls (events (copy_loop n its st)) =
               map (spec_progress (bytesTotal st)) (cumulative (bytesRead st) (chunks_written its))"
    using Cons.prems by (intro Cons.IH) simp_all
  have ih2: "progress_calls (events (copy_loop n its (advance st ?k (since_seconds it)))) =
               map (spec_progress (bytesTotal st))
                 (cumulative (bytesRead st + int ?k) (chunks_written its))"
    using Cons.IH [of "advance st ?k (since_seconds it)"] Cons.prems
    by (simp add: adv)
  show ?case
    using ih1 ih2
    by (auto simp: loop_body_def Let_def adv split: option.splits)
qed

lemma terminal_reports_append [simp]:
  "terminal_reports (tr @ tr') = terminal_reports tr @ terminal_reports tr'"
  by (induction tr rule: terminal_reports.induct) simp_all

lemma chunks_written_pos: "x \<in> set (chunks_written its) \<Longrightarrow> 0 < fst x"
  by (induction its) (auto split: if_splits)

lemma chunks_written_le: "sum_list (map fst (chunks_written its)) \<le> body_bytes its"
  by (induction its) auto

lemma cumulative_bounds:
  assumes "ct \<in> set (cumulative acc cs)" "\<forall>x\<in>set cs. 0 < fst x"
  shows "acc < fst ct \<and> fst ct \<le> acc + int (sum_list (map fst cs))"
  using assms
proof (induction acc cs rule: cumulative.induct)
  case (1 acc)
  then show ?case by simp
next
  case (2 acc n t cs)
  then show ?case by fastforce
qed

lemma cumulative_sorted:
  assumes "\<forall>x\<in>set cs. 0 < fst x"
  shows "sorted (map fst (cumulative acc cs))"
  using assms
proof (induction acc cs rule: cumulative.induct)
  case (1 acc)
  show ?case by simp
next
  case (2 acc n t cs)
  have "\<forall>ct\<in>set (cumulative (acc + int n) cs). acc + int n \<le> fst ct"
    using cumulative_bounds [of _ "acc + int n" cs] "2.prems" by fastforce
  with 2 show ?case by simp
qed

lemma chunk_sizes_cumulative:
  "chunk_sizes acc (map (spec_progress len) (cumulative acc cs)) = map (\<lambda>x. int (fst x)) cs"
  by (induction acc cs rule: cumulative.induct) simp_all

lemma sum_list_int_fst: "sum_list (map (\<lambda>x. int (fst x)) cs) = int (sum_list (map fst cs))"
  by (induction cs) simp_all

lemma copy_loop_reports:
  "terminal_reports (events (copy_loop n its st)) =
     (case finished (copy_loop n its st) of
        Some (Some e) \<Rightarrow> [final (copy_loop n its st)]
      | _ \<Rightarrow> [])"
proof (induction its arbitrary: st)
  case Nil
  show ?case by simp
next
  case (Cons it its)
  show ?case
    using Cons.IH
    by (auto simp: loop_body_def Let_def split: option.splits)
qed

lemma copy_loop_final:
  assumes "0 \<le> bytesRead st" "bytesRead st + int (body_bytes its) < 2 ^ 63"
  shows "bytesRead (final (copy_loop n its st)) =
           bytesRead st + int (sum_list (map fst (chunks_written its)))"
  using assms
proof (induction its arbitrary: st)
  case Nil
  show ?case by simp
next
  case (Cons it its)
  let ?k = "length (read_data it)"
  have a: "int64 (bytesRead st + int ?k) = bytesRead st + int ?k"
    using Cons.prems by (intro int64_id) simp_all
  have ih1: "bytesRead (final (copy_loop n its st)) =
               bytesRead st + int (sum_list (map fst (chunks_written its)))"
    using Cons.prems by (intro Cons.IH) simp_all
  have ih2: "bytesRead (final (copy_loop n its (advance st ?k (since_seconds it)))) =
               bytesRead st + int ?k + int (sum_list (map fst (chunks_written its)))"
    using Cons.IH [of "advance st ?k (since_seconds it)"] Cons.prems
    by (simp add: advance_def Let_def a)
  show ?case
    using ih1 ih2
    by (auto simp: loop_body_def Let_def advance_def a split: option.splits)
qed

lemma copy_loop_written:
  assumes "whole_writes its"
  shows "length (written (copy_loop n its st)) = sum_list (map fst (chunks_written its))"
  using assms
proof (induction its arbitrary: st)
  case Nil
  show ?case by simp
next
  case (Cons it its)
  then show ?case
    by (auto simp: loop_body_def Let_def whole_writes_def split: option.splits)
qed

lemma copy_loop_written_partial:
  "length (written (copy_loop n its st)) =
     sum_list (map fst (chunks_written its)) + partial_bytes its"
proof (induction its arbitrary: st)
  case Nil
  show ?case by simp
next
  case (Cons it its)
  then show ?case
    by (auto simp: loop_body_def Let_def split: option.splits)
qed

lemma whole_writes_partial:
  assumes "whole_writes its"
  shows "partial_bytes its = 0"
  using assms
  by (induction its) (auto simp: whole_writes_def split: option.splits)

lemma success_partial:
  assumes "finished (copy_loop n its st) = Some None"
  shows "partial_bytes its = 0"
  using assms
proof (induction its arbitrary: st)
  case Nil
  then show ?case by simp
next
  case (Cons it its)
  then show ?case
    by (auto simp: loop_body_def Let_def split: option.splits if_splits)
qed

lemma copy_loop_finished:
  "finished (copy_loop n its st) \<noteq> None \<longleftrightarrow> list_ex ends_loop its"
proof (induction its arbitrary: st)
  case Nil
  show ?case by simp
next
  case (Cons it its)
  then show ?case
    by (auto simp: loop_body_def Let_def ends_loop_def split: option.splits)
qed

lemma run_before_loop_error:
  assumes "stage_of w s d \<noteq> InCopyLoop"
  shows "\<exists>p e. returned (downloadFile w s d) = Some (p, Some e)"
  using assms
  by (auto simp: downloadFile_def stage_of_def dst_path_def Let_def request_def
           split: sum.splits option.splits if_splits)

lemma the_loop_eq:
  assumes "stage_of w s d = InCopyLoop" "http_Get w s = Inr resp"
  shows "\<exists>n. the_loop w s = copy_loop n (Body resp) (init_transfer (ContentLength resp))"
  using assms by (auto simp: the_loop_def stage_of_def split: sum.splits if_splits)

lemma init_transfer_sel [simp]:
  "bytesTotal (init_transfer len) = len"
  "bytesRead (init_transfer len) = 0"
  by (simp_all add: init_transfer_def)

lemma run_progress_calls:
  assumes "stage_of w s d = InCopyLoop" "http_Get w s = Inr resp" "fits_int64 resp"
  shows "progress_calls (trace (downloadFile w s d)) =
           spec_progress_calls (ContentLength resp) (Body resp)"
proof -
  from the_loop_eq [OF assms(1,2)] obtain n where
    l: "the_loop w s = copy_loop n (Body resp) (init_transfer (ContentLength resp))" ..
  have "progress_calls (events (copy_loop n (Body resp) (init_transfer (ContentLength resp)))) =
          map (spec_progress (bytesTotal (init_transfer (ContentLength resp))))
            (cumulative (bytesRead (init_transfer (ContentLength resp)))
               (chunks_written (Body resp)))"
    using assms(3) by (intro copy_loop_progress) (simp_all add: fits_int64_def)
  with run_in_loop(4) [OF assms(1)] l show ?thesis
    by (simp add: spec_progress_calls_def)
qed

lemma spec_progress_calls_bounds:
  assumes "t \<in> set (spec_progress_calls len its)"
  shows "bytesTotal t = len \<and> 0 < bytesRead t \<and> bytesRead t \<le> int (body_bytes its)"
proof -
  from assms obtain ct where ct: "ct \<in> set (cumulative 0 (chunks_written its))"
    and t: "t = spec_progress len ct"
    by (auto simp: spec_progress_calls_def)
  have "0 < fst ct \<and> fst ct \<le> 0 + int (sum_list (map fst (chunks_written its)))"
    using ct chunks_written_pos by (intro cumulative_bounds) auto
  moreover have "int (sum_list (map fst (chunks_written its))) \<le> int (body_bytes its)"
    using chunks_written_le [of its] by simp
  ultimately show ?thesis using t by simp
qed

lemma spec_progress_calls_sorted:
  "sorted (map bytesRead (spec_progress_calls len its))"
proof -
  have "map bytesRead (spec_progress_calls len its) =
          map fst (cumulative 0 (chunks_written its))"
    by (simp add: spec_progress_calls_def comp_def)
  moreover have "sorted (map fst (cumulative 0 (chunks_written its)))"
    using chunks_written_pos by (intro cumulative_sorted) auto
  ultimately show ?thesis by simp
qed

lemma run_in_loop_reports:
  assumes "stage_of w s d = InCopyLoop"
  shows "terminal_reports (trace (downloadFile w s d)) =
           (case finished (the_loop w s) of None \<Rightarrow> [] | Some e \<Rightarrow> [final (the_loop w s)])"
  using assms copy_loop_reports
  by (auto simp: downloadFile_def stage_of_def dst_path_def the_loop_def Let_def
                 request_in_loop [OF _ _ _ refl]
           split: sum.splits option.splits if_splits)

lemma sum_chunk_sizes:
  "sum_list (chunk_sizes 0 (spec_progress_calls len its)) =
     int (sum_list (map fst (chunks_written its)))"
  by (simp add: spec_progress_calls_def chunk_sizes_cumulative sum_list_int_fst)



text \<open>The definitions to unfold when a run is evaluated in an example world.\<close>

lemmas path_defs =
  filepath_Join_def filepath_Base_def filepath_Clean_def strip_trailing_slashes_def

lemmas ask_defs = ask_def strings_ToLower_def to_lower_ascii_def

lemmas run_defs =
  downloadFile_def request_def loop_body_def advance_def init_transfer_def
  os_RemoveAll_def below_def os_Create_def file_Write_def Let_def f64_of_int64_def
  glog_Max_def int64_def

lemmas read_defs = stage_of_def dst_path_def url_table_def

section \<open>The claims\<close>

subsection \<open>C1: the terminal callbacks\<close>

text \<open>
  C1 says that exactly one of \<^verbatim>\<open>onSuccess\<close> and \<^verbatim>\<open>onFailure\<close> is invoked, once, unless
  the flow ends at step 1 or 2. It fails for a response with status 404: the run has passed
  steps 1 and 2, it ends at the request (step 3), it returns the error of the status, and
  no terminal callback has been invoked.
\<close>

theorem C1_counterexample:
  "returned (downloadFile w_404 ''https://example.com/files/data.bin'' ''/tmp'') =
     Some (''/tmp/data.bin'', Some (StatusErrorf 404)) \<and>
   stage_of w_404 ''https://example.com/files/data.bin'' ''/tmp'' = AtRequest \<and>
   success_calls (trace (downloadFile w_404 ''https://example.com/files/data.bin'' ''/tmp'')) = 0 \<and>
   failure_calls (trace (downloadFile w_404 ''https://example.com/files/data.bin'' ''/tmp'')) = 0"
  by (simp add: w_404_def w_ok_def path_defs ask_defs run_defs read_defs)

text \<open>
  C1, amended: an invocation returns if it ends before the copy loop or if the body ends
  (end of stream, read error or failed write), and only then. \<^verbatim>\<open>onSuccess\<close> is invoked
  exactly once if it returns without error and never otherwise; \<^verbatim>\<open>onFailure\<close> is invoked
  exactly once if it returns an error after the copy loop has started and never otherwise.
  So exactly one terminal callback is invoked, once, when the copy loop is reached, and
  none when the flow ends before it: at steps 1 and 2, and also at the request and at the
  creation of the file (steps 3 and 4).
\<close>

theorem terminal_callbacks:
  "(returned (downloadFile w s d) \<noteq> None \<longleftrightarrow>
      stage_of w s d \<noteq> InCopyLoop \<or> list_ex ends_loop (body_of w s)) \<and>
   success_calls (trace (downloadFile w s d)) =
     (case returned (downloadFile w s d) of
        None \<Rightarrow> 0
      | Some (p, None) \<Rightarrow> 1
      | Some (p, Some e) \<Rightarrow> 0) \<and>
   failure_calls (trace (downloadFile w s d)) =
     (case returned (downloadFile w s d) of
        None \<Rightarrow> 0
      | Some (p, None) \<Rightarrow> 0
      | Some (p, Some e) \<Rightarrow> if stage_of w s d = InCopyLoop then 1 else 0)"
proof (cases "stage_of w s d = InCopyLoop")
  case True
  then obtain resp where g: "http_Get w s = Inr resp"
    by (auto simp: stage_of_def split: sum.splits if_splits)
  from the_loop_eq [OF True g] obtain n where
    l: "the_loop w s = copy_loop n (Body resp) (init_transfer (ContentLength resp))" ..
  have "finished (copy_loop n (Body resp) (init_transfer (ContentLength resp))) \<noteq> None
          \<longleftrightarrow> list_ex ends_loop (Body resp)"
    by (rule copy_loop_finished)
  then have "finished (the_loop w s) \<noteq> None \<longleftrightarrow> list_ex ends_loop (body_of w s)"
    using l g by (simp add: body_of_def)
  with run_in_loop(1,2,3) [OF True] True show ?thesis
    by (auto split: option.splits)
next
  case False
  from run_before_loop_error [OF False] obtain p e where
    "returned (downloadFile w s d) = Some (p, Some e)" by blast
  with run_before_loop(2,3) [OF False] False show ?thesis by simp
qed

text \<open>The successful download of 10 bytes returns, with one call of \<^verbatim>\<open>onSuccess\<close> and
  none of \<^verbatim>\<open>onFailure\<close>.\<close>

theorem terminal_callbacks_witness:
  "list_ex ends_loop (body_of w_ok ''https://example.com/files/data.bin'') \<and>
   returned (downloadFile w_ok ''https://example.com/files/data.bin'' ''/tmp'') =
     Some (''/tmp/data.bin'', None) \<and>
   success_calls (trace (downloadFile w_ok ''https://example.com/files/data.bin'' ''/tmp'')) = 1 \<and>
   failure_calls (trace (downloadFile w_ok ''https://example.com/files/data.bin'' ''/tmp'')) = 0"
proof -
  have e: "list_ex ends_loop (body_of w_ok ''https://example.com/files/data.bin'')"
    by (simp add: body_of_def w_ok_def ends_loop_def)
  have r: "returned (downloadFile w_ok ''https://example.com/files/data.bin'' ''/tmp'') =
     Some (''/tmp/data.bin'', None)"
    by (simp add: w_ok_def path_defs ask_defs run_defs read_defs)
  from terminal_callbacks [of w_ok "''https://example.com/files/data.bin''" "''/tmp''"] e r
  show ?thesis by simp
qed

subsection \<open>C2: the progress invariant\<close>

text \<open>
  C2: in every call of \<^verbatim>\<open>onProgress\<close> within one download \<^verbatim>\<open>bytesRead\<close> is not
  negative and, when \<^verbatim>\<open>bytesTotal\<close> is known (not negative), not larger than
  \<^verbatim>\<open>bytesTotal\<close>; and \<^verbatim>\<open>bytesRead\<close> does not decrease from call to call. The engine
  takes \<^verbatim>\<open>bytesTotal\<close> and the body from the HTTP client as they come, so the bound rests on
  what the client guarantees (\<open>http_contract\<close>).
\<close>

theorem progress_invariant:
  assumes "http_contract w s"
  shows "(\<forall>t\<in>set (progress_calls (trace (downloadFile w s d))).
            0 \<le> bytesRead t \<and> (0 \<le> bytesTotal t \<longrightarrow> bytesRead t \<le> bytesTotal t)) \<and>
         sorted (map bytesRead (progress_calls (trace (downloadFile w s d))))"
proof (cases "stage_of w s d = InCopyLoop")
  case False
  with run_before_loop(4) [OF False] show ?thesis by simp
next
  case True
  then obtain resp where g: "http_Get w s = Inr resp"
    by (auto simp: stage_of_def split: sum.splits if_splits)
  with assms have c: "fits_int64 resp" "within_length resp"
    by (simp_all add: http_contract_def)
  have eq: "progress_calls (trace (downloadFile w s d)) =
              spec_progress_calls (ContentLength resp) (Body resp)"
    using True g c(1) by (rule run_progress_calls)
  show ?thesis
    unfolding eq
    using spec_progress_calls_bounds [of _ "ContentLength resp" "Body resp"]
      spec_progress_calls_sorted [of "ContentLength resp" "Body resp"] c(2)
    by (fastforce simp: within_length_def)
qed

text \<open>The download of 10 bytes in two chunks: \<^verbatim>\<open>onProgress\<close> sees 5, then 10.\<close>

theorem progress_invariant_witness:
  "http_contract w_ok ''https://example.com/files/data.bin'' \<and>
   map bytesRead (progress_calls
     (trace (downloadFile w_ok ''https://example.com/files/data.bin'' ''/tmp''))) = [5, 10] \<and>
   list_all (\<lambda>t. 0 \<le> bytesRead t \<and> bytesRead t \<le> bytesTotal t) (progress_calls
     (trace (downloadFile w_ok ''https://example.com/files/data.bin'' ''/tmp''))) \<and>
   sorted (map bytesRead (progress_calls
     (trace (downloadFile w_ok ''https://example.com/files/data.bin'' ''/tmp''))))"
proof -
  have h: "http_contract w_ok ''https://example.com/files/data.bin''"
    by (simp add: http_contract_def fits_int64_def within_length_def w_ok_def)
  have v: "map bytesRead (progress_calls
     (trace (downloadFile w_ok ''https://example.com/files/data.bin'' ''/tmp''))) = [5, 10]"
    by (simp add: w_ok_def path_defs ask_defs run_defs read_defs)
  have k: "list_all (\<lambda>t. bytesTotal t = 10) (progress_calls
     (trace (downloadFile w_ok ''https://example.com/files/data.bin'' ''/tmp'')))"
    by (simp add: w_ok_def path_defs ask_defs run_defs read_defs)
  from progress_invariant [OF h, of "''/tmp''"] k
  have "list_all (\<lambda>t. 0 \<le> bytesRead t \<and> bytesRead t \<le> bytesTotal t) (progress_calls
     (trace (downloadFile w_ok ''https://example.com/files/data.bin'' ''/tmp'')))"
    by (auto simp: list_all_iff)
  with progress_invariant [OF h, of "''/tmp''"] h v show ?thesis by blast
qed

subsection \<open>C3: bytes reported and bytes on disk\<close>

text \<open>
  C3 says that for every download that completes, successfully or not, once the copy loop
  has started, the sum of the chunk sizes delivered to \<^verbatim>\<open>onProgress\<close> (and the
  \<^verbatim>\<open>bytesRead\<close> of the terminal callback) is the number of bytes in the destination file.
  It fails when a write fails part-way: the disk is full after 3 of the 10 bytes of the
  first chunk, \<^verbatim>\<open>Write\<close> returns the error, the count it returns is dropped (line 116),
  \<^verbatim>\<open>onProgress\<close> is never called and \<^verbatim>\<open>onFailure\<close> reports 0 bytes, while the file
  holds 3 bytes.
\<close>

theorem C3_counterexample:
  "stage_of w_disk_full ''https://example.com/files/data.bin'' ''/tmp'' = InCopyLoop \<and>
   returned (downloadFile w_disk_full ''https://example.com/files/data.bin'' ''/tmp'') =
     Some (''/tmp/data.bin'', Some (External ''no space left on device'')) \<and>
   file_size (files (downloadFile w_disk_full ''https://example.com/files/data.bin'' ''/tmp''))
     ''/tmp/data.bin'' = Some 3 \<and>
   sum_list (chunk_sizes 0 (progress_calls
     (trace (downloadFile w_disk_full ''https://example.com/files/data.bin'' ''/tmp'')))) = 0 \<and>
   map bytesRead (terminal_reports
     (trace (downloadFile w_disk_full ''https://example.com/files/data.bin'' ''/tmp''))) = [0]"
  by (simp add: w_disk_full_def w_ok_def path_defs ask_defs run_defs read_defs file_size_def)

text \<open>
  C3, amended: for every download that returns after the copy loop has started (with
  lengths that fit \<^verbatim>\<open>int64\<close>), the number of bytes in the destination file is the sum of
  the chunk sizes delivered to \<^verbatim>\<open>onProgress\<close>, which is also the \<^verbatim>\<open>bytesRead\<close> handed
  to the one terminal callback, plus the bytes that a failed write has put into the file
  before its error (of a chunk of \<open>n\<close> bytes whose write fails after \<open>k\<close> bytes, the first
  \<open>k\<close>, at most \<open>n\<close>). Nothing is added, and the two numbers are equal, when no failed
  write has left a part of its chunk in the file, and whenever the download returns
  without error.
\<close>

theorem bytes_reported_are_bytes_on_disk:
  assumes "stage_of w s d = InCopyLoop" "http_Get w s = Inr resp" "fits_int64 resp"
    and "returned (downloadFile w s d) \<noteq> None"
  shows "file_size (files (downloadFile w s d)) (dst_path w s d) =
           Some (sum_list (chunk_sizes 0 (progress_calls (trace (downloadFile w s d)))) +
                 int (partial_bytes (Body resp))) \<and>
         map (\<lambda>t. Some (bytesRead t + int (partial_bytes (Body resp))))
             (terminal_reports (trace (downloadFile w s d))) =
           [file_size (files (downloadFile w s d)) (dst_path w s d)] \<and>
         (whole_writes (Body resp) \<longrightarrow> partial_bytes (Body resp) = 0) \<and>
         (\<forall>p. returned (downloadFile w s d) = Some (p, None) \<longrightarrow>
              partial_bytes (Body resp) = 0)"
proof -
  from the_loop_eq [OF assms(1,2)] obtain n where
    l: "the_loop w s = copy_loop n (Body resp) (init_transfer (ContentLength resp))" ..
  let ?k = "sum_list (map fst (chunks_written (Body resp)))"
  let ?q = "partial_bytes (Body resp)"
  have size: "file_size (files (downloadFile w s d)) (dst_path w s d) = Some (int ?k + int ?q)"
    using run_in_loop(5) [OF assms(1)] l
      copy_loop_written_partial [of n "Body resp" "init_transfer (ContentLength resp)"]
    by (simp add: file_size_def)
  have sum: "sum_list (chunk_sizes 0 (progress_calls (trace (downloadFile w s d)))) = int ?k"
    using run_progress_calls [OF assms(1,2,3)] by (simp add: sum_chunk_sizes)
  have "bytesRead (final (copy_loop n (Body resp) (init_transfer (ContentLength resp)))) =
          bytesRead (init_transfer (ContentLength resp)) + int ?k"
    using assms(3) by (intro copy_loop_final) (simp_all add: fits_int64_def)
  then have fin: "bytesRead (final (the_loop w s)) = int ?k"
    using l by simp
  have "finished (the_loop w s) \<noteq> None"
    using run_in_loop(1) [OF assms(1)] assms(4) by (auto split: option.splits)
  then have rep: "terminal_reports (trace (downloadFile w s d)) = [final (the_loop w s)]"
    using run_in_loop_reports [OF assms(1)] by (auto split: option.splits)
  have ww: "whole_writes (Body resp) \<longrightarrow> ?q = 0"
    using whole_writes_partial by blast
  have ok: "\<forall>p. returned (downloadFile w s d) = Some (p, None) \<longrightarrow> ?q = 0"
  proof (intro allI impI)
    fix p
    assume "returned (downloadFile w s d) = Some (p, None)"
    with run_in_loop(1) [OF assms(1)] have "finished (the_loop w s) = Some None"
      by (auto split: option.splits)
    with l show "?q = 0" using success_partial by simp
  qed
  show ?thesis
    using size sum fin rep ww ok by simp
qed

text \<open>
  The download of 10 bytes: the file holds 10 bytes, the chunks reported sum up to 10 and
  \<^verbatim>\<open>onSuccess\<close> is told 10. The full disk: the failed write has left 3 bytes, nothing was
  reported, and the file holds 0 + 3 bytes.
\<close>

theorem bytes_reported_are_bytes_on_disk_witness:
  "stage_of w_ok ''https://example.com/files/data.bin'' ''/tmp'' = InCopyLoop \<and>
   returned (downloadFile w_ok ''https://example.com/files/data.bin'' ''/tmp'') =
     Some (''/tmp/data.bin'', None) \<and>
   partial_bytes (body_of w_ok ''https://example.com/files/data.bin'') = 0 \<and>
   file_size (files (downloadFile w_ok ''https://example.com/files/data.bin'' ''/tmp''))
     (dst_path w_ok ''https://example.com/files/data.bin'' ''/tmp'') = Some 10 \<and>
   sum_list (chunk_sizes 0 (progress_calls
     (trace (downloadFile w_ok ''https://example.com/files/data.bin'' ''/tmp'')))) = 10 \<and>
   map bytesRead (terminal_reports
     (trace (downloadFile w_ok ''https://example.com/files/data.bin'' ''/tmp''))) = [10] \<and>
   stage_of w_disk_full ''https://example.com/files/data.bin'' ''/tmp'' = InCopyLoop \<and>
   returned (downloadFile w_disk_full ''https://example.com/files/data.bin'' ''/tmp'') \<noteq> None \<and>
   partial_bytes (body_of w_disk_full ''https://example.com/files/data.bin'') = 3 \<and>
   file_size (files (downloadFile w_disk_full ''https://example.com/files/data.bin'' ''/tmp''))
     (dst_path w_disk_full ''https://example.com/files/data.bin'' ''/tmp'') =
     Some (sum_list (chunk_sizes 0 (progress_calls
       (trace (downloadFile w_disk_full ''https://example.com/files/data.bin'' ''/tmp'')))) + 3) \<and>
   map (\<lambda>t. Some (bytesRead t + 3)) (terminal_reports
       (trace (downloadFile w_disk_full ''https://example.com/files/data.bin'' ''/tmp''))) =
     [file_size (files (downloadFile w_disk_full ''https://example.com/files/data.bin'' ''/tmp''))
        (dst_path w_disk_full ''https://example.com/files/data.bin'' ''/tmp'')]"
proof -
  let ?u = "''https://example.com/files/data.bin''"
  let ?resp = "\<lparr>StatusCode = 200, ContentLength = 10,
        Body = [\<lparr>read_data = ''01234'', read_err = None, write_fail = None,
                  since_seconds = 0\<rparr>,
                \<lparr>read_data = ''56789'', read_err = None, write_fail = None,
                  since_seconds = 2\<rparr>,
                \<lparr>read_data = [], read_err = Some EOF, write_fail = None,
                  since_seconds = 2\<rparr>]\<rparr>"
  let ?full = "\<lparr>StatusCode = 200, ContentLength = 10,
        Body = [\<lparr>read_data = ''0123456789'', read_err = None,
                  write_fail = Some (3, External ''no space left on device''),
                  since_seconds = 0\<rparr>]\<rparr>"
  have a: "stage_of w_ok ?u ''/tmp'' = InCopyLoop"
    by (simp add: w_ok_def path_defs ask_defs read_defs)
  have b: "http_Get w_ok ?u = Inr ?resp"
    by (simp add: w_ok_def)
  have c: "fits_int64 ?resp"
    by (simp add: fits_int64_def)
  have f: "returned (downloadFile w_ok ?u ''/tmp'') = Some (''/tmp/data.bin'', None)"
    by (simp add: w_ok_def path_defs ask_defs run_defs read_defs)
  then have f': "returned (downloadFile w_ok ?u ''/tmp'') \<noteq> None"
    by simp
  have g: "body_of w_ok ?u = Body ?resp"
    by (simp add: body_of_def b)
  have t: "map bytesRead (terminal_reports (trace (downloadFile w_ok ?u ''/tmp''))) = [10]"
    by (simp add: w_ok_def path_defs ask_defs run_defs read_defs)
  have a2: "stage_of w_disk_full ?u ''/tmp'' = InCopyLoop"
    by (simp add: w_disk_full_def w_ok_def path_defs ask_defs read_defs)
  have b2: "http_Get w_disk_full ?u = Inr ?full"
    by (simp add: w_disk_full_def w_ok_def)
  have c2: "fits_int64 ?full"
    by (simp add: fits_int64_def)
  have f2: "returned (downloadFile w_disk_full ?u ''/tmp'') \<noteq> None"
    by (simp add: w_disk_full_def w_ok_def path_defs ask_defs run_defs read_defs)
  have g2: "body_of w_disk_full ?u = Body ?full"
    by (simp add: body_of_def b2)
  have q: "partial_bytes (Body ?resp) = 0" "partial_bytes (Body ?full) = 3"
    by simp_all
  have s: "sum_list (chunk_sizes 0 (progress_calls (trace (downloadFile w_ok ?u ''/tmp'')))) = 10"
    by (simp add: w_ok_def path_defs ask_defs run_defs read_defs)
  from bytes_reported_are_bytes_on_disk [OF a b c f']
       bytes_reported_are_bytes_on_disk [OF a2 b2 c2 f2] a f g t a2 f2 g2 q s
  show ?thesis
    by simp
qed

subsection \<open>C4: a status other than 200\<close>

text \<open>
  C4: whenever the request has been sent and the response has a status code other than
  200 (another 2xx code as well), the download fails with the error that carries the code,
  and the destination file is not created: the trace holds no call of \<^verbatim>\<open>os.Create\<close>, and
  nothing is at the destination path when the function returns.
\<close>

theorem bad_status:
  assumes "HttpGet s \<in> set (trace (downloadFile w s d))"
    and "http_Get w s = Inr resp" "StatusCode resp \<noteq> 200"
  shows "returned (downloadFile w s d) =
           Some (dst_path w s d, Some (StatusErrorf (StatusCode resp))) \<and>
         filter is_create (trace (downloadFile w s d)) = [] \<and>
         files (downloadFile w s d) (dst_path w s d) = None"
  using assms
  by (auto simp: downloadFile_def request_def dst_path_def Let_def os_RemoveAll_def
           split: sum.splits option.splits if_splits)

text \<open>A response with status 204.\<close>

theorem bad_status_witness:
  "HttpGet ''https://example.com/files/data.bin'' \<in>
     set (trace (downloadFile w_204 ''https://example.com/files/data.bin'' ''/tmp'')) \<and>
   returned (downloadFile w_204 ''https://example.com/files/data.bin'' ''/tmp'') =
     Some (''/tmp/data.bin'', Some (StatusErrorf 204)) \<and>
   filter is_create (trace (downloadFile w_204 ''https://example.com/files/data.bin'' ''/tmp'')) = [] \<and>
   files (downloadFile w_204 ''https://example.com/files/data.bin'' ''/tmp'') ''/tmp/data.bin'' = None"
proof -
  let ?resp = "\<lparr>StatusCode = 204, ContentLength = 0, Body = []\<rparr>"
  have a: "HttpGet ''https://example.com/files/data.bin'' \<in>
     set (trace (downloadFile w_204 ''https://example.com/files/data.bin'' ''/tmp''))"
    by (simp add: w_204_def w_ok_def path_defs ask_defs run_defs read_defs)
  have b: "http_Get w_204 ''https://example.com/files/data.bin'' = Inr ?resp"
    by (simp add: w_204_def w_ok_def)
  have c: "StatusCode ?resp \<noteq> 200" by simp
  have p: "dst_path w_204 ''https://example.com/files/data.bin'' ''/tmp'' = ''/tmp/data.bin''"
    by (simp add: w_204_def w_ok_def path_defs read_defs)
  from bad_status [OF a b c] a show ?thesis
    by (simp add: p)
qed

subsection \<open>C5: a URL whose path has no base name\<close>

text \<open>
  C5 says that a URL whose path has an empty base name, such as
  \<^verbatim>\<open>https://example.com/\<close>, fails with a defined error and neither writes to nor deletes a
  directory. The code has no such check. The base name of \<^verbatim>\<open>/\<close> is \<^verbatim>\<open>/\<close>, and joined
  to the destination directory \<^verbatim>\<open>/tmp/dl\<close> it gives the directory itself. The directory
  exists, so the user is asked whether "the file" is to be downloaded afresh; after a yes
  \<^verbatim>\<open>os.RemoveAll\<close> deletes the directory with the file in it, the body is written to a
  regular file in its place, and the function returns without error.
\<close>

theorem empty_basename_replaces_directory:
  "fs0 w_dir ''/tmp/dl'' = Some Dir \<and>
   fs0 w_dir ''/tmp/dl/keep.txt'' = Some (File ''old'') \<and>
   returned (downloadFile w_dir ''https://example.com/'' ''/tmp/dl'') = Some (''/tmp/dl'', None) \<and>
   RemoveAll ''/tmp/dl'' \<in> set (trace (downloadFile w_dir ''https://example.com/'' ''/tmp/dl'')) \<and>
   files (downloadFile w_dir ''https://example.com/'' ''/tmp/dl'') ''/tmp/dl'' = Some (File ''hi'') \<and>
   files (downloadFile w_dir ''https://example.com/'' ''/tmp/dl'') ''/tmp/dl/keep.txt'' = None"
  by (simp add: w_dir_def path_defs ask_defs run_defs read_defs)

subsection \<open>C6: progress and seconds remaining when the length is unknown\<close>




subsection \<open>C7: declining to overwrite\<close>

text \<open>
  C7: when something is at the destination path and the prompt is declined (any answer
  but \<^verbatim>\<open>y\<close> or \<^verbatim>\<open>yes\<close>, or no answer), the file system is left as it was, so the
  existing file keeps its bytes; the only calls to the outside are \<^verbatim>\<open>os.Stat\<close> and the
  prompt, so no request is sent; and the function returns the existing path together with
  the error \<^verbatim>\<open>Download cancelled!\<close>, in the place of any other error.
\<close>

theorem declined_overwrite:
  assumes "url_Parse w s = Inr u" "Scheme u \<noteq> []"
    and "fs0 w (dst_path w s d) = Some node" "\<not> ask (scanln w)"
  shows "returned (downloadFile w s d) =
           Some (dst_path w s d, Some (Errorf ''Download cancelled!'')) \<and>
         files (downloadFile w s d) = fs0 w \<and>
         files (downloadFile w s d) (dst_path w s d) = Some node \<and>
         trace (downloadFile w s d) = [Stat (dst_path w s d), Prompt (dst_path w s d)] \<and>
         HttpGet s \<notin> set (trace (downloadFile w s d))"
  using assms by (simp add: downloadFile_def dst_path_def Let_def)

text \<open>The file \<^verbatim>\<open>/tmp/data.bin\<close> exists and the user answers \<^verbatim>\<open>n\<close>.\<close>

theorem declined_overwrite_witness:
  "fs0 w_declined ''/tmp/data.bin'' = Some (File ''old'') \<and>
   \<not> ask (scanln w_declined) \<and>
   returned (downloadFile w_declined ''https://example.com/files/data.bin'' ''/tmp'') =
     Some (''/tmp/data.bin'', Some (Errorf ''Download cancelled!'')) \<and>
   files (downloadFile w_declined ''https://example.com/files/data.bin'' ''/tmp'') = fs0 w_declined \<and>
   files (downloadFile w_declined ''https://example.com/files/data.bin'' ''/tmp'') ''/tmp/data.bin'' =
     Some (File ''old'') \<and>
   trace (downloadFile w_declined ''https://example.com/files/data.bin'' ''/tmp'') =
     [Stat ''/tmp/data.bin'', Prompt ''/tmp/data.bin'']"
proof -
  have a: "url_Parse w_declined ''https://example.com/files/data.bin'' =
             Inr \<lparr>Scheme = ''https'', Path = ''/files/data.bin''\<rparr>"
    by (simp add: w_declined_def w_ok_def url_table_def)
  have b: "Scheme \<lparr>Scheme = ''https'', Path = ''/files/data.bin''\<rparr> \<noteq> []" by simp
  have p: "dst_path w_declined ''https://example.com/files/data.bin'' ''/tmp'' = ''/tmp/data.bin''"
    by (simp add: w_declined_def w_ok_def path_defs read_defs)
  have c: "fs0 w_declined (dst_path w_declined ''https://example.com/files/data.bin'' ''/tmp'') =
             Some (File ''old'')"
    unfolding p by (simp add: w_declined_def w_ok_def)
  have e: "\<not> ask (scanln w_declined)"
    by (simp add: w_declined_def w_ok_def ask_defs)
  from declined_overwrite [OF a b c e] c e show ?thesis
    by (simp add: p)
qed

subsection \<open>C8: an invalid URL\<close>

text \<open>
  C8: when the source URL does not parse, or parses with an empty scheme, the download
  fails with the error of the parser or with \<^verbatim>\<open>not a valid URL\<close>, before any call to the
  network or the file system: the trace is empty and the file system is as it was. The
  scheme is only tested, no scheme is put in its place.
\<close>

theorem invalid_url:
  assumes "case url_Parse w s of Inl err \<Rightarrow> True | Inr u \<Rightarrow> Scheme u = []"
  shows "returned (downloadFile w s d) =
           Some ([], Some (case url_Parse w s of Inl err \<Rightarrow> err
                           | Inr u \<Rightarrow> Errorf ''not a valid URL'')) \<and>
         trace (downloadFile w s d) = [] \<and>
         files (downloadFile w s d) = fs0 w"
  using assms by (auto simp: downloadFile_def split: sum.splits)

text \<open>A string without scheme, and a string that does not parse.\<close>

theorem invalid_url_witness:
  "url_Parse w_ok ''example.com/data.bin'' = Inr \<lparr>Scheme = [], Path = ''example.com/data.bin''\<rparr> \<and>
   returned (downloadFile w_ok ''example.com/data.bin'' ''/tmp'') =
     Some ([], Some (Errorf ''not a valid URL'')) \<and>
   trace (downloadFile w_ok ''example.com/data.bin'' ''/tmp'') = [] \<and>
   files (downloadFile w_ok ''example.com/data.bin'' ''/tmp'') = fs0 w_ok \<and>
   url_Parse w_ok '':foo'' = Inl (External ''missing protocol scheme'') \<and>
   returned (downloadFile w_ok '':foo'' ''/tmp'') =
     Some ([], Some (External ''missing protocol scheme'')) \<and>
   trace (downloadFile w_ok '':foo'' ''/tmp'') = [] \<and>
   files (downloadFile w_ok '':foo'' ''/tmp'') = fs0 w_ok"
proof -
  have a: "url_Parse w_ok ''example.com/data.bin'' =
             Inr \<lparr>Scheme = [], Path = ''example.com/data.bin''\<rparr>"
    by (simp add: w_ok_def url_table_def)
  have b: "url_Parse w_ok '':foo'' = Inl (External ''missing protocol scheme'')"
    by (simp add: w_ok_def url_table_def)
  have a': "case url_Parse w_ok ''example.com/data.bin'' of Inl err \<Rightarrow> True
            | Inr u \<Rightarrow> Scheme u = []"
    by (simp add: a)
  have b': "case url_Parse w_ok '':foo'' of Inl err \<Rightarrow> True | Inr u \<Rightarrow> Scheme u = []"
    by (simp add: b)
  from invalid_url [OF a', of "''/tmp''"] invalid_url [OF b', of "''/tmp''"] a b
  show ?thesis by simp
qed

subsection \<open>C9: the recomputation after every chunk\<close>

text \<open>
  C9: after every read that yields \<open>n > 0\<close> bytes and whose write succeeds, the engine
  recomputes the speed as the cumulative \<^verbatim>\<open>bytesRead\<close> divided by the elapsed whole seconds
  floored to a minimum of 1, the seconds remaining as \<^verbatim>\<open>bytesTotal - bytesRead\<close> divided by
  the speed, and invokes \<^verbatim>\<open>onProgress\<close> with them, every time. The calls of
  \<^verbatim>\<open>onProgress\<close> of a run are exactly the ones the spec describes, one for each chunk
  written, computed from the running total of the chunk sizes.
\<close>

theorem progress_after_every_chunk:
  assumes "stage_of w s d = InCopyLoop" "http_Get w s = Inr resp" "fits_int64 resp"
  shows "progress_calls (trace (downloadFile w s d)) =
           spec_progress_calls (ContentLength resp) (Body resp)"
  using assms by (rule run_progress_calls)

text \<open>Two chunks of 5 bytes, the first within the first second, the second after 2
  seconds: the speed is 5 bytes per second both times.\<close>

theorem progress_after_every_chunk_witness:
  "stage_of w_ok ''https://example.com/files/data.bin'' ''/tmp'' = InCopyLoop \<and>
   progress_calls (trace (downloadFile w_ok ''https://example.com/files/data.bin'' ''/tmp'')) =
     [\<lparr>bytesTotal = 10, bytesRead = 5, progress = Fin (1 / 2), speed = Fin 5,
       secondsRemaining = Fin 1\<rparr>,
      \<lparr>bytesTotal = 10, bytesRead = 10, progress = Fin 1, speed = Fin 5,
       secondsRemaining = Fin 0\<rparr>]"
proof -
  let ?resp = "\<lparr>StatusCode = 200, ContentLength = 10,
        Body = [\<lparr>read_data = ''01234'', read_err = None, write_fail = None,
                  since_seconds = 0\<rparr>,
                \<lparr>read_data = ''56789'', read_err = None, write_fail = None,
                  since_seconds = 2\<rparr>,
                \<lparr>read_data = [], read_err = Some EOF, write_fail = None,
                  since_seconds = 2\<rparr>]\<rparr>"
  have a: "stage_of w_ok ''https://example.com/files/data.bin'' ''/tmp'' = InCopyLoop"
    by (simp add: w_ok_def path_defs ask_defs read_defs)
  have b: "http_Get w_ok ''https://example.com/files/data.bin'' = Inr ?resp"
    by (simp add: w_ok_def)
  have c: "fits_int64 ?resp"
    by (simp add: fits_int64_def)
  from progress_after_every_chunk [OF a b c] a show ?thesis
    by (simp add: spec_progress_calls_def spec_progress_def)
qed

subsection \<open>C10: the path returned with an error\<close>

text \<open>
  C10 says that the empty path is returned when URL parsing fails, and the destination
  path on every other failure path. It fails for a string without scheme: \<^verbatim>\<open>url.Parse\<close>
  succeeds on \<^verbatim>\<open>example.com/data.bin\<close> (with an empty scheme and that path), the test of
  line 64 rejects it with \<^verbatim>\<open>not a valid URL\<close>, and the path returned is the empty
  string, not the destination path \<^verbatim>\<open>/tmp/data.bin\<close>.
\<close>

theorem C10_counterexample:
  "url_Parse w_ok ''example.com/data.bin'' =
     Inr \<lparr>Scheme = [], Path = ''example.com/data.bin''\<rparr> \<and>
   returned (downloadFile w_ok ''example.com/data.bin'' ''/tmp'') =
     Some ([], Some (Errorf ''not a valid URL'')) \<and>
   dst_path w_ok ''example.com/data.bin'' ''/tmp'' = ''/tmp/data.bin''"
  by (simp add: w_ok_def path_defs run_defs read_defs)

text \<open>
  C10, amended: when \<^verbatim>\<open>downloadFile\<close> returns an error, the path it returns is the empty
  string if the URL did not parse (and then the error is the parser's) or if it parsed
  with an empty scheme (lines 60 to 66), and on every other failure path it is the
  destination path, the destination directory joined with the base name of the URL's path.
\<close>

theorem returned_path_on_failure:
  assumes "returned (downloadFile w s d) = Some (p, Some e)"
  shows "case url_Parse w s of
           Inl err \<Rightarrow> p = [] \<and> e = err
         | Inr u \<Rightarrow>
             if Scheme u = [] then p = []
             else p = filepath_Join d (filepath_Base (Path u))"
proof (cases "stage_of w s d = InCopyLoop")
  case True
  from run_in_loop(1) [OF True] assms True show ?thesis
    by (auto simp: stage_of_def dst_path_def split: sum.splits option.splits if_splits)
next
  case False
  with assms show ?thesis
    by (auto simp: downloadFile_def stage_of_def dst_path_def Let_def request_def
             split: sum.splits option.splits if_splits)
qed

text \<open>A response with status 404, and a string that does not parse.\<close>

theorem returned_path_on_failure_witness:
  "returned (downloadFile w_404 ''https://example.com/files/data.bin'' ''/srv/files/'') =
     Some (''/srv/files/data.bin'', Some (StatusErrorf 404)) \<and>
   returned (downloadFile w_404 '':foo'' ''/srv/files/'') =
     Some ([], Some (External ''missing protocol scheme''))"
proof -
  have a: "returned (downloadFile w_404 ''https://example.com/files/data.bin'' ''/srv/files/'') =
     Some (''/srv/files/data.bin'', Some (StatusErrorf 404))"
    by (simp add: w_404_def w_ok_def path_defs ask_defs run_defs read_defs)
  have b: "returned (downloadFile w_404 '':foo'' ''/srv/files/'') =
     Some ([], Some (External ''missing protocol scheme''))"
    by (simp add: w_404_def w_ok_def path_defs ask_defs run_defs read_defs)
  from returned_path_on_failure [OF a] returned_path_on_failure [OF b] a b
  show ?thesis by simp
qed

end
